theory Spec2Isabelle
  imports Main
begin

section \<open>Python strings\<close>

text \<open>
  A Python \<open>str\<close> is a sequence of Unicode code points. A code point is modelled as a
  natural number and a string as the list of its code points, so that \<open>\s\<close> and
  \<open>str.rstrip\<close> see the non-ASCII white space of Python as well. Literals of the
  source are written \<open>ustr ''...''\<close>.
\<close>

type_synonym ustring = "nat list"

definition ustr :: "string \<Rightarrow> ustring" where
  "ustr s = map of_char s"

text \<open>
  \<open>str.isspace\<close> on one character, which is also what \<open>\s\<close> matches in a
  \<open>str\<close> pattern and what \<open>rstrip()\<close> removes: the code points 9-13, 28-32, 0x85,
  0xA0, 0x1680, 0x2000-0x200A, 0x2028, 0x2029, 0x202F, 0x205F and 0x3000.
\<close>

definition isspace :: "nat \<Rightarrow> bool" where
  "isspace c =
     ((9 \<le> c \<and> c \<le> 13) \<or> (28 \<le> c \<and> c \<le> 32) \<or> c = 133 \<or> c = 160 \<or> c = 5760 \<or>
      (8192 \<le> c \<and> c \<le> 8202) \<or> c = 8232 \<or> c = 8233 \<or> c = 8239 \<or> c = 8287 \<or>
      c = 12288)"

definition startswith :: "ustring \<Rightarrow> ustring \<Rightarrow> bool" where
  "startswith s p = (take (length p) s = p)"

definition endswith :: "ustring \<Rightarrow> ustring \<Rightarrow> bool" where
  "endswith s p = (length p \<le> length s \<and> drop (length s - length p) s = p)"

definition rstrip :: "ustring \<Rightarrow> ustring" where
  "rstrip s = rev (dropWhile isspace (rev s))"

definition lstrip :: "ustring \<Rightarrow> ustring" where
  "lstrip s = dropWhile isspace s"

text \<open>\<open>s.split('\n')\<close>: never empty, the empty string gives one empty line.\<close>

fun split_nl :: "ustring \<Rightarrow> ustring list" where
  "split_nl [] = [[]]"
| "split_nl (c # cs) =
     (if c = 10 then [] # split_nl cs
      else (case split_nl cs of [] \<Rightarrow> [[c]] | l # ls \<Rightarrow> (c # l) # ls))"

text \<open>\<open>'\n'.join(lines)\<close>.\<close>

fun join_nl :: "ustring list \<Rightarrow> ustring" where
  "join_nl [] = []"
| "join_nl [l] = l"
| "join_nl (l # ls) = l @ 10 # join_nl ls"

text \<open>\<open>str(n)\<close> for an integer: decimal digits, a minus sign when negative.\<close>

fun str_nat :: "nat \<Rightarrow> ustring" where
  "str_nat n = (if n < 10 then [48 + n] else str_nat (n div 10) @ [48 + n mod 10])"

declare str_nat.simps [simp del]

definition str_int :: "int \<Rightarrow> ustring" where
  "str_int i = (if i < 0 then 45 # str_nat (nat (- i)) else str_nat (nat i))"

section \<open>The code normalizer: \<open>clean_generated_code\<close>\<close>

text \<open>
  \<open>re.sub(r'^```python\s*', '', code)\<close>. Without \<open>re.MULTILINE\<close> the anchor
  \<open>^\<close> matches at position 0 only, so at most one match is replaced; \<open>\s*\<close> is
  greedy and nothing follows it, so it takes the whole run of white space.
\<close>

definition fence_python :: ustring where
  "fence_python = ustr ''```python''"

definition fence :: ustring where
  "fence = ustr ''```''"

definition sub_leading_python :: "ustring \<Rightarrow> ustring" where
  "sub_leading_python code =
     (if startswith code fence_python
      then dropWhile isspace (drop (length fence_python) code) else code)"

text \<open>
  \<open>re.sub(r'\s*```$', '', code)\<close>. A match at the start of \<open>s\<close> is a run of white
  space, the three backquotes, and then \<open>$\<close>: the end of the string, or the position
  just before a newline that ends the string. White space is never a backquote, so the
  run is the maximal one. \<open>match_trailing s\<close> is the text left after such a match.
\<close>

definition match_trailing :: "ustring \<Rightarrow> ustring option" where
  "match_trailing s =
     (let r = dropWhile isspace s in
      if startswith r fence \<and> (drop 3 r = [] \<or> drop 3 r = [10])
      then Some (drop 3 r) else None)"

text \<open>
  \<open>re.sub\<close> scans from the left: where the pattern matches, the match is replaced by
  the empty string and the scan goes on behind it; where it does not, the character is
  kept. Since \<open>$\<close> only looks at the end of the whole string, what follows the current
  position decides a match. Behind a match there is nothing left, or one newline, where
  the pattern cannot match again (\<open>sub_trailing_rest\<close> below), so the rest is kept as
  it is.
\<close>

fun sub_trailing :: "ustring \<Rightarrow> ustring" where
  "sub_trailing [] = []"
| "sub_trailing (c # cs) =
     (case match_trailing (c # cs) of
        Some rest \<Rightarrow> rest
      | None \<Rightarrow> c # sub_trailing cs)"

text \<open>\<open>re.sub(r'^```\s*', '', code)\<close>.\<close>

definition sub_leading :: "ustring \<Rightarrow> ustring" where
  "sub_leading code =
     (if startswith code fence then dropWhile isspace (drop (length fence) code) else code)"

definition clean_generated_code :: "ustring \<Rightarrow> ustring" where
  "clean_generated_code code =
     (let code = sub_leading_python code;
          code = sub_trailing code;
          code = sub_leading code;
          lines = split_nl code;
          clean_lines = map rstrip lines
      in join_nl clean_lines)"

text \<open>The last four lines of \<open>clean_generated_code\<close> on their own.\<close>

definition trim_lines :: "ustring \<Rightarrow> ustring" where
  "trim_lines s = join_nl (map rstrip (split_nl s))"

section \<open>Exceptions and the environment\<close>

text \<open>
  An exception is its class and the text \<open>str(e)\<close>. The classes named are those the
  code tells apart and those the library calls raise in the cases looked at below;
  \<open>OSError\<close> stands for its subclasses other than \<open>FileNotFoundError\<close>
  (\<open>IsADirectoryError\<close>, \<open>PermissionError\<close>). Every class here derives from
  \<open>Exception\<close>, so \<open>except Exception\<close> catches each of them.
\<close>

datatype exc_class =
    TimeoutExpired | SyntaxError | FileNotFoundError | AttributeError
  | OSError | UnicodeEncodeError | OtherException

datatype py_exception = Exc exc_class ustring

fun exc_cls :: "py_exception \<Rightarrow> exc_class" where
  "exc_cls (Exc c m) = c"

fun exc_str :: "py_exception \<Rightarrow> ustring" where
  "exc_str (Exc c m) = m"

text \<open>
  How \<open>with open(path, "w") as f: f.write(text)\<close> can fail: \<open>open\<close> raises and
  nothing is changed (the path is a directory, the directory is write-protected), or
  the file is opened, so created or truncated, and writing raises (the text cannot be
  encoded, the disk is full) with some of the text, possibly none, in the file.
\<close>

datatype write_failure = OpenFails py_exception | WriteFails py_exception ustring

text \<open>
  The part of the machine the executor reads and writes: the paths that exist in the
  working directory with their content, the existing paths \<open>os.remove\<close> refuses (a
  directory, a protected file) with the exception it raises, and the writes the
  operating system or the encoder refuses. Diagnostic \<open>print\<close> calls are left out.
\<close>

record world =
  files :: "ustring \<rightharpoonup> ustring"
  remove_error :: "ustring \<rightharpoonup> py_exception"
  write_fails :: "ustring \<Rightarrow> ustring \<Rightarrow> write_failure option"

text \<open>An empty working directory where every write and every removal goes through.\<close>

definition fresh_dir :: world where
  "fresh_dir = \<lparr>files = Map.empty, remove_error = Map.empty,
                 write_fails = (\<lambda>path content. None)\<rparr>"

text \<open>A write that goes through: the file is created or overwritten.\<close>

definition write_file :: "world \<Rightarrow> ustring \<Rightarrow> ustring \<Rightarrow> world" where
  "write_file w path content = w\<lparr>files := (files w)(path \<mapsto> content)\<rparr>"

text \<open>
  \<open>with open(path, "w") as f: f.write(content)\<close>: the exception raised, if any, and
  the files afterwards.
\<close>

definition open_write :: "world \<Rightarrow> ustring \<Rightarrow> ustring \<Rightarrow> py_exception option \<times> world" where
  "open_write w path content =
     (case write_fails w path content of
        None \<Rightarrow> (None, write_file w path content)
      | Some (OpenFails e) \<Rightarrow> (Some e, w)
      | Some (WriteFails e written) \<Rightarrow> (Some e, write_file w path written))"

definition os_path_exists :: "world \<Rightarrow> ustring \<Rightarrow> bool" where
  "os_path_exists w path = (files w path \<noteq> None)"

text \<open>
  \<open>os.remove(path)\<close> raises \<open>FileNotFoundError\<close> on a missing path and the
  exception of the operating system on a path it refuses to remove; the path stays
  then.
\<close>

definition os_remove :: "world \<Rightarrow> ustring \<Rightarrow> py_exception + world" where
  "os_remove w path =
     (if files w path = None
      then Inl (Exc FileNotFoundError
                 (ustr ''[Errno 2] No such file or directory: '' @ [39] @ path @ [39]))
      else (case remove_error w path of
              Some e \<Rightarrow> Inl e
            | None \<Rightarrow> Inr (w\<lparr>files := (files w)(path := None)\<rparr>)))"

text \<open>
  \<open>subprocess.run(argv, capture_output=True, text=True, timeout=t)\<close> is the
  environment: the interpreter and the operating system. It either returns a
  \<open>CompletedProcess\<close> or raises (\<open>TimeoutExpired\<close> after killing the child, or any
  other exception while launching or capturing), and the child may have changed the
  files meanwhile.
\<close>

record completed_process =
  returncode :: int
  stdout :: ustring
  stderr :: ustring

type_synonym subprocess =
  "ustring list \<Rightarrow> nat \<Rightarrow> world \<Rightarrow> (py_exception + completed_process) \<times> world"

section \<open>The sandboxed executor: \<open>execute_code\<close>\<close>

text \<open>The dictionary \<open>{"success", "message", "output"}\<close>; the key \<open>output\<close> is the field \<open>output_text\<close>.\<close>

record execution_result =
  success :: bool
  message :: ustring
  output_text :: ustring

definition code_file :: ustring where
  "code_file = ustr ''temp_code.py''"

text \<open>
  The body of the \<open>try\<close> block: run the child, remove the file, then look at the exit
  status. An exception leaves the block at the call that raised it; what the child did
  to the files stays done.
\<close>

definition try_block :: "subprocess \<Rightarrow> world \<Rightarrow> (py_exception + execution_result) \<times> world" where
  "try_block subprocess_run w =
     (case subprocess_run [ustr ''python3'', code_file] 60 w of
        (Inl e, w1) \<Rightarrow> (Inl e, w1)
      | (Inr result, w1) \<Rightarrow>
          (case os_remove w1 code_file of
             Inl e \<Rightarrow> (Inl e, w1)
           | Inr w2 \<Rightarrow>
               (if returncode result = 0
                then (Inr \<lparr>success = True,
                           message = ustr ''Command executed successfully'',
                           output_text = stdout result\<rparr>, w2)
                else (Inr \<lparr>success = False,
                           message = ustr ''Error executing code (exit code ''
                                       @ str_int (returncode result) @ ustr '')'',
                           output_text = stderr result\<rparr>, w2))))"

text \<open>
  The cleanup both handlers start with: \<open>if os.path.exists(code_file):
  os.remove(code_file)\<close>. An exception raised here would leave \<open>execute_code\<close>.
\<close>

definition handler_cleanup :: "world \<Rightarrow> py_exception + world" where
  "handler_cleanup w =
     (if os_path_exists w code_file then os_remove w code_file else Inr w)"

text \<open>
  The file is written before the \<open>try\<close>: an exception raised there leaves
  \<open>execute_code\<close> at once, and so does one raised by the cleanup inside a handler.
\<close>

definition execute_code ::
  "subprocess \<Rightarrow> ustring \<Rightarrow> world \<Rightarrow> (py_exception + execution_result) \<times> world" where
  "execute_code subprocess_run code w =
     (let code = clean_generated_code code
      in case open_write w code_file code of
           (Some e, w0) \<Rightarrow> (Inl e, w0)
         | (None, w0) \<Rightarrow>
             (case try_block subprocess_run w0 of
                (Inr r, w1) \<Rightarrow> (Inr r, w1)
              | (Inl e, w1) \<Rightarrow>
                  (if exc_cls e = TimeoutExpired
                   then (case handler_cleanup w1 of
                           Inl e' \<Rightarrow> (Inl e', w1)
                         | Inr w2 \<Rightarrow>
                             (Inr \<lparr>success = False,
                                   message = ustr ''Command execution timed out'',
                                   output_text =
                                     ustr ''Execution took too long and was terminated''\<rparr>, w2))
                   else (case handler_cleanup w1 of
                           Inl e' \<Rightarrow> (Inl e', w1)
                         | Inr w2 \<Rightarrow>
                             (Inr \<lparr>success = False,
                                   message = ustr ''Exception during execution: '' @ exc_str e,
                                   output_text = exc_str e\<rparr>, w2)))))"

section \<open>The code generator: \<open>call_llm_for_code\<close>\<close>

definition LLAMA_MODEL :: ustring where
  "LLAMA_MODEL = ustr ''meta-llama/Llama-3.2-3B-Instruct''"

definition system_prompt :: ustring where
  "system_prompt = ustr
     (''You are an AI that translates natural language commands into macOS system API calls using Python.\<newline>'' @
      ''Generate ONLY valid Python code that can be executed to perform the requested action on macOS.\<newline>'' @
      ''Your code should use the most appropriate low-level macOS APIs or commands.\<newline>'' @
      ''For UI actions, prefer to use:\<newline>'' @
      ''1. PyObjC and AppKit for direct macOS API access\<newline>'' @
      ''2. AppleScript through subprocess.run for UI automation\<newline>'' @
      ''3. Shell commands through subprocess for system tasks\<newline>'' @
      ''\<newline>'' @
      ''Return ONLY the Python code with no explanation, commentary, or markdown. Just the raw Python code.\<newline>'' @
      ''The code should be complete and executable as-is. Include all necessary imports at the top.\<newline>'')"

definition user_message :: "ustring \<Rightarrow> ustring" where
  "user_message user_query =
     ustr ''Generate macOS API code for this command: '' @ [34] @ user_query @ [34] @ ustr
     (''\<newline>\<newline>'' @
      ''Your code should be as flexible as possible and handle potential errors gracefully.\<newline>'' @
      ''Here are some examples of the APIs you can use:\<newline>'' @
      ''- NSWorkspace for app management\<newline>'' @
      ''- NSRunningApplication for app control\<newline>'' @
      ''- AppKit for UI elements\<newline>'' @
      ''- CoreGraphics for screen and window management\<newline>'' @
      ''- AppleScript for UI automation\<newline>'' @
      ''- subprocess for system commands\<newline>'' @
      ''\<newline>'' @
      ''The code will be executed directly, so make it safe and effective.\<newline>'')"

record chat_message =
  content :: ustring
  role :: ustring

text \<open>
  What \<open>llama_client.inference.chat_completion\<close> hands back: a response whose
  \<open>completion_message.content\<close> is a string, or a response without that attribute
  (reading it raises \<open>AttributeError\<close>). The call itself may raise instead.
\<close>

datatype chat_response = Completion ustring | Malformed

type_synonym chat_backend =
  "chat_message list \<Rightarrow> ustring \<Rightarrow> bool \<Rightarrow> py_exception + chat_response"

definition error_marker :: ustring where
  "error_marker = ustr ''# Error generating code''"

text \<open>
  The \<open>try\<close> block of \<open>call_llm_for_code\<close>: the backend call, then the attribute read.
\<close>

definition request_completion :: "chat_backend \<Rightarrow> ustring \<Rightarrow> py_exception + ustring" where
  "request_completion chat_completion user_query =
     (case chat_completion
             [\<lparr>content = system_prompt, role = ustr ''system''\<rparr>,
              \<lparr>content = user_message user_query, role = ustr ''user''\<rparr>]
             LLAMA_MODEL False of
        Inl e \<Rightarrow> Inl e
      | Inr Malformed \<Rightarrow>
          Inl (Exc AttributeError (ustr ''object has no attribute completion_message''))
      | Inr (Completion text) \<Rightarrow> Inr text)"

definition call_llm_for_code :: "chat_backend \<Rightarrow> ustring \<Rightarrow> ustring" where
  "call_llm_for_code chat_completion user_query =
     (case request_completion chat_completion user_query of
        Inr text \<Rightarrow> text
      | Inl e \<Rightarrow> error_marker)"

section \<open>The safety gate: \<open>is_code_safe\<close>\<close>

text \<open>
  \<open>re.search\<close> and \<open>ast.parse\<close> belong to the Python library and are parameters:
  \<open>re_search pattern code\<close> tells whether the pattern matches somewhere, and
  \<open>ast_parse code\<close> is \<open>None\<close> when the code parses and the exception raised
  otherwise (a \<open>SyntaxError\<close> for code that is not valid Python).
\<close>

type_synonym regex_search = "ustring \<Rightarrow> ustring \<Rightarrow> bool"

type_synonym parser = "ustring \<Rightarrow> py_exception option"

text \<open>Every entry of the list is commented out in the source.\<close>

definition dangerous_patterns :: "ustring list" where
  "dangerous_patterns = []"

text \<open>The loop over the patterns: \<open>True\<close> when it reaches \<open>return False\<close>.\<close>

fun pattern_found :: "regex_search \<Rightarrow> ustring list \<Rightarrow> ustring \<Rightarrow> bool" where
  "pattern_found re_search [] code = False"
| "pattern_found re_search (pattern # patterns) code =
     (if re_search pattern code then True else pattern_found re_search patterns code)"

text \<open>
  The body of \<open>is_code_safe\<close> for a given list of patterns. Only \<open>SyntaxError\<close> is
  caught around \<open>ast.parse\<close>; another exception leaves the function.
\<close>

definition is_code_safe_with ::
  "regex_search \<Rightarrow> parser \<Rightarrow> ustring list \<Rightarrow> ustring \<Rightarrow> py_exception + bool" where
  "is_code_safe_with re_search ast_parse patterns code =
     (if pattern_found re_search patterns code then Inr False
      else (case ast_parse code of
              None \<Rightarrow> Inr True
            | Some e \<Rightarrow> (if exc_cls e = SyntaxError then Inr False else Inl e)))"

definition is_code_safe :: "regex_search \<Rightarrow> parser \<Rightarrow> ustring \<Rightarrow> py_exception + bool" where
  "is_code_safe re_search ast_parse code =
     is_code_safe_with re_search ast_parse dangerous_patterns code"

section \<open>The pipeline: \<open>process_command\<close>\<close>

record pipeline_response =
  command :: ustring
  generated_code :: ustring
  execution_result :: execution_result

text \<open>
  The handler of \<open>POST /process\<close>. \<open>request.json\<close> is \<open>None\<close> or a dictionary; an
  empty dictionary has no \<open>command\<close> key, so \<open>not data\<close> adds no case to the key test.
  The answer is the JSON body with status 200, the error body with status 400, or the
  exception that left \<open>execute_code\<close>, which nothing catches here.
\<close>

datatype http_response =
    Ok_200 pipeline_response
  | Bad_Request_400 ustring
  | Raised py_exception

definition process_command ::
  "chat_backend \<Rightarrow> subprocess \<Rightarrow> (ustring \<rightharpoonup> ustring) option \<Rightarrow> world \<Rightarrow> http_response \<times> world" where
  "process_command chat_completion subprocess_run data w =
     (case data of
        None \<Rightarrow> (Bad_Request_400 (ustr ''No command provided''), w)
      | Some d \<Rightarrow>
          (case d (ustr ''command'') of
             None \<Rightarrow> (Bad_Request_400 (ustr ''No command provided''), w)
           | Some user_command \<Rightarrow>
               (let generated_code = call_llm_for_code chat_completion user_command
                in case execute_code subprocess_run generated_code w of
                     (Inl e, w1) \<Rightarrow> (Raised e, w1)
                   | (Inr result, w1) \<Rightarrow>
                       (Ok_200 \<lparr>command = user_command,
                               generated_code = generated_code,
                               execution_result = result\<rparr>, w1))))"

section \<open>Lines and white space\<close>

lemma split_nl_nonempty: "split_nl s \<noteq> []"
  by (induction s) (auto split: list.splits)

lemma join_split_nl: "join_nl (split_nl s) = s"
proof (induction s)
  case Nil
  show ?case by simp
next
  case (Cons c cs)
  obtain l ls where sp: "split_nl cs = l # ls"
    using split_nl_nonempty [of cs] by (cases "split_nl cs") auto
  show ?case
  proof (cases "c = 10")
    case True
    with Cons sp show ?thesis by simp
  next
    case False
    with Cons sp show ?thesis by (cases ls) auto
  qed
qed

lemma split_nl_no_newline: "l \<in> set (split_nl s) \<Longrightarrow> 10 \<notin> set l"
  by (induction s arbitrary: l) (auto split: list.splits if_splits)

lemma split_nl_append_line: "10 \<notin> set l \<Longrightarrow> split_nl (l @ 10 # s) = l # split_nl s"
  by (induction l) auto

lemma split_nl_line: "10 \<notin> set l \<Longrightarrow> split_nl l = [l]"
  by (induction l) auto

lemma split_join_nl:
  "ls \<noteq> [] \<Longrightarrow> (\<forall>l \<in> set ls. 10 \<notin> set l) \<Longrightarrow> split_nl (join_nl ls) = ls"
proof (induction ls rule: join_nl.induct)
  case 1
  then show ?case by simp
next
  case (2 l)
  then show ?case by (simp add: split_nl_line)
next
  case (3 l v va)
  then show ?case by (simp add: split_nl_append_line)
qed

lemma set_rstrip: "set (rstrip s) \<subseteq> set s"
  unfolding rstrip_def using set_dropWhileD by fastforce

lemma rstrip_idem: "rstrip (rstrip s) = rstrip s"
  unfolding rstrip_def by (simp add: dropWhile_idem)

lemma trim_lines_idem: "trim_lines (trim_lines s) = trim_lines s"
proof -
  let ?ls = "map rstrip (split_nl s)"
  have ne: "?ls \<noteq> []" by (simp add: split_nl_nonempty)
  have nl: "\<forall>l \<in> set ?ls. 10 \<notin> set l"
    using split_nl_no_newline set_rstrip by fastforce
  have "split_nl (join_nl ?ls) = ?ls" by (rule split_join_nl [OF ne nl])
  then show ?thesis by (simp add: trim_lines_def rstrip_idem comp_def)
qed

section \<open>Prefixes, suffixes and the three substitutions\<close>

lemma endswith_iff: "endswith s p \<longleftrightarrow> (\<exists>ys. s = ys @ p)"
proof
  assume "endswith s p"
  then have "s = take (length s - length p) s @ p"
    unfolding endswith_def by (metis append_take_drop_id)
  then show "\<exists>ys. s = ys @ p" ..
next
  assume "\<exists>ys. s = ys @ p"
  then show "endswith s p" unfolding endswith_def by auto
qed

lemma startswith_iff: "startswith s p \<longleftrightarrow> (\<exists>ys. s = p @ ys)"
proof
  assume "startswith s p"
  then have "s = p @ drop (length p) s"
    unfolding startswith_def by (metis append_take_drop_id)
  then show "\<exists>ys. s = p @ ys" ..
next
  assume "\<exists>ys. s = p @ ys"
  then show "startswith s p" unfolding startswith_def by auto
qed

lemma length_fence [simp]: "length fence = 3"
  by (simp add: fence_def ustr_def)

lemma fence_eq: "fence = [96, 96, 96]"
  by (simp add: fence_def ustr_def)

lemma fence_python_eq: "fence_python = fence @ ustr ''python''"
  by (simp add: fence_def fence_python_def ustr_def)

lemma not_isspace_backquote [simp]: "\<not> isspace 96"
  by (simp add: isspace_def)

lemma isspace_newline [simp]: "isspace 10"
  by (simp add: isspace_def)

lemma match_trailing_SomeD:
  assumes "match_trailing s = Some rest"
  shows "dropWhile isspace s = fence @ rest \<and> (rest = [] \<or> rest = [10])"
proof -
  let ?r = "dropWhile isspace s"
  from assms have sw: "startswith ?r fence" and d: "drop 3 ?r = [] \<or> drop 3 ?r = [10]"
    and rest: "rest = drop 3 ?r"
    by (auto simp: match_trailing_def Let_def split: if_splits)
  from sw have "?r = fence @ drop 3 ?r"
    unfolding startswith_def by (metis append_take_drop_id length_fence)
  with d rest show ?thesis by auto
qed

lemma match_trailing_endswith:
  assumes "match_trailing s = Some rest"
  shows "endswith s fence \<or> endswith s (fence @ [10])"
proof -
  from match_trailing_SomeD [OF assms]
  have r: "dropWhile isspace s = fence @ rest" and c: "rest = [] \<or> rest = [10]" by auto
  have "s = takeWhile isspace s @ fence @ rest"
    using r by (metis takeWhile_dropWhile_id)
  with c show ?thesis unfolding endswith_iff by auto
qed

lemma sub_trailing_rest:
  assumes "match_trailing s = Some rest"
  shows "sub_trailing rest = rest"
proof -
  from match_trailing_SomeD [OF assms] have "rest = [] \<or> rest = [10]" by simp
  then show ?thesis by (auto simp: match_trailing_def startswith_def fence_eq Let_def)
qed

lemma endswith_Cons: "endswith cs p \<Longrightarrow> endswith (c # cs) p"
  unfolding endswith_iff by (metis append_Cons)

lemma sub_trailing_id:
  "\<not> endswith s fence \<Longrightarrow> \<not> endswith s (fence @ [10]) \<Longrightarrow> sub_trailing s = s"
proof (induction s)
  case Nil
  show ?case by simp
next
  case (Cons c cs)
  have "match_trailing (c # cs) = None"
    using match_trailing_endswith [of "c # cs"] Cons.prems by (cases "match_trailing (c # cs)") auto
  moreover have "sub_trailing cs = cs"
    using Cons endswith_Cons by blast
  ultimately show ?case by simp
qed

lemma startswith_fence_python: "startswith s fence_python \<Longrightarrow> startswith s fence"
  unfolding startswith_iff fence_python_eq by auto

lemma clean_trim:
  "clean_generated_code x = trim_lines (sub_leading (sub_trailing (sub_leading_python x)))"
  by (simp add: clean_generated_code_def trim_lines_def)

lemma clean_fixpoint:
  assumes "\<not> startswith y fence" "\<not> endswith y fence" "\<not> endswith y (fence @ [10])"
  shows "clean_generated_code y = trim_lines y"
proof -
  have "sub_leading_python y = y"
    using assms(1) startswith_fence_python by (auto simp: sub_leading_python_def)
  moreover have "sub_trailing y = y" using assms(2,3) by (rule sub_trailing_id)
  moreover have "sub_leading y = y" using assms(1) by (simp add: sub_leading_def)
  ultimately show ?thesis by (simp add: clean_trim)
qed

lemma trim_lines_clean: "trim_lines (clean_generated_code x) = clean_generated_code x"
  by (simp add: clean_trim trim_lines_idem)

lemmas clean_eval =
  clean_generated_code_def ustr_def sub_leading_python_def sub_leading_def fence_def
  fence_python_def startswith_def endswith_def match_trailing_def isspace_def rstrip_def

lemma clean_error_marker: "clean_generated_code error_marker = error_marker"
  by (simp add: error_marker_def clean_eval)

section \<open>A fenced input, and what each substitution can remove\<close>

lemma rstrip_split:
  "\<exists>t. s = rstrip s @ t \<and> (\<forall>c \<in> set t. isspace c)"
proof -
  have "rev s = takeWhile isspace (rev s) @ dropWhile isspace (rev s)" by simp
  then have "s = rev (dropWhile isspace (rev s)) @ rev (takeWhile isspace (rev s))"
    by (metis rev_append rev_rev_ident)
  moreover have "\<forall>c \<in> set (rev (takeWhile isspace (rev s))). isspace c"
    by (auto dest: set_takeWhileD)
  ultimately show ?thesis unfolding rstrip_def by blast
qed

lemma rstrip_last: "rstrip s \<noteq> [] \<Longrightarrow> \<not> isspace (last (rstrip s))"
  unfolding rstrip_def by (simp add: last_rev hd_dropWhile)

lemma sub_trailing_match: "s \<noteq> [] \<Longrightarrow> match_trailing s = Some r \<Longrightarrow> sub_trailing s = r"
  by (cases s) auto

lemma sub_trailing_no_match: "match_trailing (c # cs) = None \<Longrightarrow> sub_trailing (c # cs) = c # sub_trailing cs"
  by simp

lemma dropWhile_spaces_fence:
  "\<forall>c \<in> set ws. isspace c \<Longrightarrow> dropWhile isspace (ws @ fence) = fence"
  by (simp add: dropWhile_append2 fence_eq)

lemma match_trailing_spaces_fence:
  "\<forall>c \<in> set ws. isspace c \<Longrightarrow> match_trailing (ws @ fence) = Some []"
proof -
  assume "\<forall>c \<in> set ws. isspace c"
  then have d: "dropWhile isspace (ws @ fence) = fence" by (rule dropWhile_spaces_fence)
  show ?thesis unfolding match_trailing_def d Let_def by (simp add: startswith_def)
qed

lemma match_trailing_body:
  assumes "\<not> isspace (last (c # b))" and "\<forall>x \<in> set ws. isspace x"
  shows "match_trailing ((c # b) @ ws @ fence) = None"
proof (cases "match_trailing ((c # b) @ ws @ fence)")
  case None
  then show ?thesis .
next
  case (Some rest)
  let ?u = "dropWhile isspace (c # b)"
  have mem: "last (c # b) \<in> set (c # b)" by (rule last_in_set) simp
  have dw: "dropWhile isspace ((c # b) @ ws @ fence) = ?u @ ws @ fence"
    using mem assms(1) by (rule dropWhile_append1)
  have une: "?u \<noteq> []"
    using mem assms(1) by (auto simp: dropWhile_eq_Nil_conv simp del: dropWhile.simps)
  from match_trailing_SomeD [OF Some] dw
  have eq: "?u @ ws @ fence = fence @ rest" and r: "rest = [] \<or> rest = [10]" by auto
  from r show ?thesis
  proof
    assume "rest = []"
    with eq have "length (?u @ ws @ fence) = length fence" by simp
    with une show ?thesis by simp
  next
    assume "rest = [10]"
    with eq have "last (?u @ ws @ fence) = last (fence @ [10])" by simp
    then show ?thesis by (simp add: fence_eq)
  qed
qed

lemma sub_trailing_body:
  assumes "b = [] \<or> \<not> isspace (last b)" and "\<forall>x \<in> set ws. isspace x"
  shows "sub_trailing (b @ ws @ fence) = b"
  using assms(1)
proof (induction b)
  case Nil
  have "ws @ fence \<noteq> []" by (simp add: fence_eq)
  then show ?case
    using sub_trailing_match match_trailing_spaces_fence [OF assms(2)] by simp
next
  case (Cons c b)
  then have l: "\<not> isspace (last (c # b))" by simp
  have "match_trailing ((c # b) @ ws @ fence) = None"
    using l assms(2) by (rule match_trailing_body)
  then have "sub_trailing ((c # b) @ ws @ fence) = c # sub_trailing (b @ ws @ fence)"
    by simp
  moreover have "b = [] \<or> \<not> isspace (last b)" using l by (cases b) auto
  ultimately show ?case using Cons.IH by simp
qed

lemma sub_trailing_strip:
  assumes "\<forall>x \<in> set ws. isspace x"
  shows "sub_trailing (l @ ws @ fence) = rstrip l"
proof -
  obtain t where t: "l = rstrip l @ t" and ts: "\<forall>c \<in> set t. isspace c"
    using rstrip_split by blast
  have "rstrip l = [] \<or> \<not> isspace (last (rstrip l))" using rstrip_last by blast
  moreover have "\<forall>x \<in> set (t @ ws). isspace x" using ts assms by auto
  ultimately have "sub_trailing (rstrip l @ (t @ ws) @ fence) = rstrip l"
    by (rule sub_trailing_body)
  moreover have "l @ ws @ fence = rstrip l @ (t @ ws) @ fence" using t by (metis append_assoc)
  ultimately show ?thesis by metis
qed

lemma sub_leading_python_fenced:
  "\<exists>ws. (\<forall>x \<in> set ws. isspace x) \<and>
        sub_leading_python (fence_python @ [10] @ body @ [10] @ fence) = lstrip body @ ws @ fence"
proof -
  have sw: "startswith (fence_python @ [10] @ body @ [10] @ fence) fence_python"
    unfolding startswith_iff by blast
  have s1: "sub_leading_python (fence_python @ [10] @ body @ [10] @ fence)
              = dropWhile isspace (body @ [10] @ fence)"
    using sw by (simp add: sub_leading_python_def)
  show ?thesis
  proof (cases "\<forall>x \<in> set body. isspace x")
    case True
    then have "dropWhile isspace (body @ [10] @ fence) = fence"
      by (simp add: dropWhile_append2 fence_eq)
    moreover from True have "lstrip body = []" by (simp add: lstrip_def)
    ultimately show ?thesis using s1 by (intro exI [of _ "[]"]) simp
  next
    case False
    then obtain x where "x \<in> set body" "\<not> isspace x" by blast
    then have "dropWhile isspace (body @ [10] @ fence) = dropWhile isspace body @ [10] @ fence"
      by (rule dropWhile_append1)
    then show ?thesis using s1 by (intro exI [of _ "[10]"]) (simp add: lstrip_def)
  qed
qed

lemma clean_fenced:
  assumes "\<not> startswith (rstrip (lstrip body)) fence"
  shows "clean_generated_code (fence_python @ [10] @ body @ [10] @ fence)
           = join_nl (map rstrip (split_nl (rstrip (lstrip body))))"
proof -
  obtain ws where ws: "\<forall>x \<in> set ws. isspace x"
    and s1: "sub_leading_python (fence_python @ [10] @ body @ [10] @ fence)
               = lstrip body @ ws @ fence"
    using sub_leading_python_fenced by blast
  have s2: "sub_trailing (lstrip body @ ws @ fence) = rstrip (lstrip body)"
    using ws by (rule sub_trailing_strip)
  have s3: "sub_leading (rstrip (lstrip body)) = rstrip (lstrip body)"
    using assms by (simp add: sub_leading_def)
  show ?thesis unfolding clean_generated_code_def Let_def s1 s2 s3 by (rule refl)
qed


lemma length_rstrip: "length (rstrip s) \<le> length s"
  unfolding rstrip_def using length_dropWhile_le [of isspace "rev s"] by simp

lemma length_join_map_rstrip: "length (join_nl (map rstrip ls)) \<le> length (join_nl ls)"
proof (induction ls rule: join_nl.induct)
  case 1
  show ?case by simp
next
  case (2 l)
  show ?case by (simp add: length_rstrip)
next
  case (3 l v va)
  then show ?case using length_rstrip [of l] by simp
qed

lemma length_trim_lines: "length (trim_lines s) \<le> length s"
  using length_join_map_rstrip [of "split_nl s"] by (simp add: trim_lines_def join_split_nl)

lemma length_drop_spaces: "length (dropWhile isspace (drop n s)) \<le> length s - n"
  using length_dropWhile_le [of isspace "drop n s"] by simp

lemma length_sub_leading: "length (sub_leading s) \<le> length s"
proof -
  have "length (dropWhile isspace (drop 3 s)) \<le> length s - 3"
    by (rule length_drop_spaces)
  then have "length (dropWhile isspace (drop 3 s)) \<le> length s" by arith
  then show ?thesis by (simp add: sub_leading_def)
qed

lemma length_sub_leading_less: "startswith s fence \<Longrightarrow> length (sub_leading s) < length s"
proof -
  assume sw: "startswith s fence"
  then have 1: "3 \<le> length s" unfolding startswith_iff by auto
  have 2: "length (dropWhile isspace (drop 3 s)) \<le> length s - 3"
    by (rule length_drop_spaces)
  from 1 2 have "length (dropWhile isspace (drop 3 s)) < length s" by arith
  then show ?thesis using sw by (simp add: sub_leading_def)
qed

lemma length_sub_leading_python_less:
  "startswith s fence_python \<Longrightarrow> length (sub_leading_python s) < length s"
proof -
  assume sw: "startswith s fence_python"
  then have 1: "length fence_python \<le> length s" unfolding startswith_iff by auto
  have 2: "0 < length fence_python" by (simp add: fence_python_def ustr_def)
  have 3: "length (dropWhile isspace (drop (length fence_python) s))
             \<le> length s - length fence_python"
    by (rule length_drop_spaces)
  from 1 2 3 have "length (dropWhile isspace (drop (length fence_python) s)) < length s"
    by arith
  then show ?thesis using sw by (simp add: sub_leading_python_def)
qed

lemma match_trailing_length:
  assumes "match_trailing s = Some rest"
  shows "length rest < length s"
proof -
  from match_trailing_SomeD [OF assms]
  have "length (dropWhile isspace s) = 3 + length rest" by simp
  then show ?thesis using length_dropWhile_le [of isspace s] by simp
qed

lemma length_sub_trailing: "length (sub_trailing s) \<le> length s"
proof (induction s)
  case Nil
  show ?case by simp
next
  case (Cons c cs)
  show ?case
  proof (cases "match_trailing (c # cs)")
    case None
    with Cons show ?thesis by simp
  next
    case (Some rest)
    with match_trailing_length [OF Some] show ?thesis by simp
  qed
qed

lemma match_trailing_fence: "match_trailing fence = Some []"
  using match_trailing_spaces_fence [of "[]"] by simp

lemma match_trailing_fence_nl: "match_trailing (fence @ [10]) = Some [10]"
  by (simp add: match_trailing_def fence_eq startswith_def)

lemma length_sub_trailing_less:
  "endswith s fence \<or> endswith s (fence @ [10]) \<Longrightarrow> length (sub_trailing s) < length s"
proof (induction s)
  case Nil
  then show ?case by (simp add: endswith_def)
next
  case (Cons c cs)
  show ?case
  proof (cases "match_trailing (c # cs)")
    case (Some rest)
    with match_trailing_length [OF Some] show ?thesis by simp
  next
    case None
    have "endswith cs fence \<or> endswith cs (fence @ [10])"
    proof -
      from Cons.prems obtain p ys where p: "p = fence \<or> p = fence @ [10]" and e: "c # cs = ys @ p"
        unfolding endswith_iff by blast
      have "ys \<noteq> []"
      proof
        assume "ys = []"
        with e p None show False
          using match_trailing_fence match_trailing_fence_nl by auto
      qed
      then obtain y ys' where "ys = y # ys'" by (cases ys) auto
      with e have "cs = ys' @ p" by simp
      with p show ?thesis unfolding endswith_iff by blast
    qed
    with Cons.IH None show ?thesis by simp
  qed
qed

lemma clean_shorter:
  assumes "startswith y fence \<or> endswith y fence \<or> endswith y (fence @ [10])"
  shows "length (clean_generated_code y) < length y"
proof -
  let ?a = "sub_leading_python y"
  let ?b = "sub_trailing ?a"
  let ?c = "sub_leading ?b"
  have le: "length (clean_generated_code y) \<le> length ?c" "length ?c \<le> length ?b"
    "length ?b \<le> length ?a"
    by (simp_all add: clean_trim length_trim_lines length_sub_leading length_sub_trailing)
  show ?thesis
  proof (cases "startswith y fence_python")
    case True
    then have "length ?a < length y" by (rule length_sub_leading_python_less)
    with le show ?thesis by simp
  next
    case False
    then have a: "?a = y" by (simp add: sub_leading_python_def)
    show ?thesis
    proof (cases "endswith y fence \<or> endswith y (fence @ [10])")
      case True
      then have "length (sub_trailing y) < length y" by (rule length_sub_trailing_less)
      with le a show ?thesis by simp
    next
      case False
      then have b: "sub_trailing y = y" by (simp add: sub_trailing_id)
      from False assms have "startswith y fence" by blast
      then have "length (sub_leading y) < length y" by (rule length_sub_leading_less)
      with le a b show ?thesis by simp
    qed
  qed
qed

section \<open>The executor's exit paths\<close>



lemma handler_cleanup_ok:
  "files w code_file = None \<or> remove_error w code_file = None \<Longrightarrow>
   \<exists>w'. handler_cleanup w = Inr w'"
  by (auto simp: handler_cleanup_def os_remove_def os_path_exists_def)






text \<open>
  The normal path while the file is still there, and removable, when the child has
  finished: the exit status alone decides the result.
\<close>

lemma execute_code_completed:
  assumes "write_fails w code_file (clean_generated_code code) = None"
    and "subprocess_run [ustr ''python3'', code_file] 60
             (write_file w code_file (clean_generated_code code)) = (Inr result, w1)"
    and "files w1 code_file \<noteq> None"
    and "remove_error w1 code_file = None"
  shows "execute_code subprocess_run code w =
           (Inr (if returncode result = 0
                 then \<lparr>success = True, message = ustr ''Command executed successfully'',
                       output_text = stdout result\<rparr>
                 else \<lparr>success = False,
                       message = ustr ''Error executing code (exit code ''
                                   @ str_int (returncode result) @ ustr '')'',
                       output_text = stderr result\<rparr>),
            w1\<lparr>files := (files w1)(code_file := None)\<rparr>)"
  using assms by (auto simp: execute_code_def open_write_def try_block_def os_remove_def)

lemmas exec_eval =
  execute_code_def open_write_def try_block_def os_remove_def handler_cleanup_def
  os_path_exists_def write_file_def fresh_dir_def Let_def

section \<open>Claims about the normalizer\<close>

text \<open>
  C6, as stated: \<open>clean_generated_code\<close> is idempotent on every input. It is not: the
  three substitutions run one after the other, once each, so a fence uncovered by one
  pass is removed by the next. On six backquotes followed by \<open>python\<close> the first pass
  leaves \<open>```python\<close> and the second pass leaves the empty string.
\<close>

theorem clean_generated_code_not_idempotent:
  "clean_generated_code (ustr ''``````python'') = ustr ''```python'' \<and>
   clean_generated_code (clean_generated_code (ustr ''``````python'')) = [] \<and>
   clean_generated_code (clean_generated_code (ustr ''``````python''))
     \<noteq> clean_generated_code (ustr ''``````python'')"
proof -
  have 1: "clean_generated_code (ustr ''``````python'') = ustr ''```python''"
    by (simp add: clean_eval)
  have 2: "clean_generated_code (ustr ''```python'') = []"
    by (simp add: clean_eval)
  show ?thesis by (simp add: 1 2) (simp add: ustr_def)
qed

text \<open>
  C6, amended: a second pass changes nothing exactly when the result of the first pass
  has no fence left at its start and none at its end (three backquotes, or three
  backquotes and one newline, as its last characters).
\<close>

theorem clean_generated_code_idempotent_iff:
  "clean_generated_code (clean_generated_code x) = clean_generated_code x \<longleftrightarrow>
     \<not> startswith (clean_generated_code x) fence \<and>
     \<not> endswith (clean_generated_code x) fence \<and>
     \<not> endswith (clean_generated_code x) (fence @ [10])"
proof
  assume idem: "clean_generated_code (clean_generated_code x) = clean_generated_code x"
  show "\<not> startswith (clean_generated_code x) fence \<and>
     \<not> endswith (clean_generated_code x) fence \<and>
     \<not> endswith (clean_generated_code x) (fence @ [10])"
  proof (rule ccontr)
    assume "\<not> ?thesis"
    then have "length (clean_generated_code (clean_generated_code x))
                 < length (clean_generated_code x)"
      using clean_shorter [of "clean_generated_code x"] by blast
    with idem show False by simp
  qed
next
  assume "\<not> startswith (clean_generated_code x) fence \<and>
     \<not> endswith (clean_generated_code x) fence \<and>
     \<not> endswith (clean_generated_code x) (fence @ [10])"
  then have "clean_generated_code (clean_generated_code x) = trim_lines (clean_generated_code x)"
    using clean_fixpoint by blast
  then show "clean_generated_code (clean_generated_code x) = clean_generated_code x"
    by (simp add: trim_lines_clean)
qed

theorem clean_generated_code_idempotent_iff_witness:
  "clean_generated_code (clean_generated_code (ustr ''```python\<newline>print(1)\<newline>```''))
     = clean_generated_code (ustr ''```python\<newline>print(1)\<newline>```'')"
proof -
  have "clean_generated_code (ustr ''```python\<newline>print(1)\<newline>```'') = ustr ''print(1)''"
    by (simp add: clean_eval)
  then show ?thesis
    using clean_generated_code_idempotent_iff [of "ustr ''```python\<newline>print(1)\<newline>```''"]
    by (simp add: ustr_def startswith_def endswith_def fence_def)
qed

text \<open>
  C7, as stated: on a fenced input only the outermost fences go. A second fence right
  behind the leading \<open>```python\<close> one goes as well, through the third substitution.
\<close>

theorem clean_generated_code_strips_inner_fence:
  "clean_generated_code (ustr ''```python\<newline>```\<newline>print(1)\<newline>```'') = ustr ''print(1)'' \<and>
   clean_generated_code (ustr ''```python\<newline>```\<newline>print(1)\<newline>```'')
     \<noteq> ustr ''```\<newline>print(1)''"
proof -
  have "clean_generated_code (ustr ''```python\<newline>```\<newline>print(1)\<newline>```'') = ustr ''print(1)''"
    by (simp add: clean_eval)
  then show ?thesis by (simp add: ustr_def)
qed

text \<open>
  C7, amended: the input \<open>```python\nprint(1)\n```\<close> gives \<open>print(1)\<close>; and for any
  body between a leading \<open>```python\<close> line and a trailing \<open>```\<close> line, as long as the
  body, stripped of the white space around it, does not itself begin with three
  backquotes, the result is that stripped body with the trailing white space of each
  line removed, lines in their order, fences inside the body kept.
\<close>

theorem clean_generated_code_fenced:
  assumes "\<not> startswith (rstrip (lstrip body)) fence"
  shows "clean_generated_code (ustr ''```python\<newline>print(1)\<newline>```'') = ustr ''print(1)'' \<and>
         clean_generated_code (ustr ''```python'' @ [10] @ body @ [10] @ ustr ''```'')
           = join_nl (map rstrip (split_nl (rstrip (lstrip body))))"
proof -
  have "clean_generated_code (ustr ''```python\<newline>print(1)\<newline>```'') = ustr ''print(1)''"
    by (simp add: clean_eval)
  moreover have "clean_generated_code (fence_python @ [10] @ body @ [10] @ fence)
           = join_nl (map rstrip (split_nl (rstrip (lstrip body))))"
    using assms by (rule clean_fenced)
  ultimately show ?thesis by (simp add: fence_def fence_python_def)
qed

theorem clean_generated_code_fenced_witness:
  "\<not> startswith (rstrip (lstrip (ustr ''  x = 1  \<newline>\<newline>y = 2 \<newline>''))) fence \<and>
   clean_generated_code (ustr ''```python\<newline>  x = 1  \<newline>\<newline>y = 2 \<newline>\<newline>```'')
     = ustr ''x = 1\<newline>\<newline>y = 2''"
proof -
  have h: "\<not> startswith (rstrip (lstrip (ustr ''  x = 1  \<newline>\<newline>y = 2 \<newline>''))) fence"
    by (simp add: clean_eval lstrip_def)
  have v: "join_nl (map rstrip (split_nl (rstrip (lstrip (ustr ''  x = 1  \<newline>\<newline>y = 2 \<newline>'')))))
             = ustr ''x = 1\<newline>\<newline>y = 2''"
    by (simp add: clean_eval lstrip_def)
  have i: "ustr ''```python'' @ [10] @ ustr ''  x = 1  \<newline>\<newline>y = 2 \<newline>'' @ [10] @ ustr ''```''
             = ustr ''```python\<newline>  x = 1  \<newline>\<newline>y = 2 \<newline>\<newline>```''"
    by (simp add: ustr_def)
  from clean_generated_code_fenced [OF h] v i show ?thesis using h by simp
qed

section \<open>Claims about the executor\<close>

text \<open>
  C1. The claim: \<open>success\<close> is true exactly when the child exited with status 0, with
  the captured stdout as output then. The code removes the file before it looks at the
  exit status and does not guard that removal, as both handlers do: a child that exits
  with status 0 after deleting \<open>temp_code.py\<close> makes \<open>os.remove\<close> raise, and the call
  reports a failure whose output is the exception text, not the child's stdout.
\<close>

theorem execute_code_exit_zero_reported_failed:
  "fst (execute_code
         (\<lambda>argv t w. (Inr \<lparr>returncode = 0, stdout = ustr ''1\<newline>'', stderr = []\<rparr>,
                      w\<lparr>files := (files w)(code_file := None)\<rparr>))
         (ustr ''import os; os.remove(__file__); print(1)'') fresh_dir) =
     Inr \<lparr>success = False,
          message = ustr ''Exception during execution: [Errno 2] No such file or directory: ''
                    @ [39] @ ustr ''temp_code.py'' @ [39],
          output_text = ustr ''[Errno 2] No such file or directory: ''
                    @ [39] @ ustr ''temp_code.py'' @ [39]\<rparr>"
  by (simp add: exec_eval code_file_def ustr_def)




text \<open>
  C3, as stated: whenever the child exceeds the time limit the fixed timeout record is
  returned. The handler first removes the file, and that can raise: after a child that
  has made \<open>temp_code.py\<close> unremovable and then runs out of time, the exception of
  \<open>os.remove\<close> leaves \<open>execute_code\<close> and no record is returned.
\<close>

theorem execute_code_timeout_cleanup_raises:
  "fst (execute_code
         (\<lambda>argv t w. (Inl (Exc TimeoutExpired (ustr ''timed out after 60 seconds'')),
                      w\<lparr>remove_error := (remove_error w)
                           (code_file \<mapsto> Exc OSError (ustr ''[Errno 21] Is a directory''))\<rparr>))
         (ustr ''import os; os.remove(__file__); os.mkdir(__file__)\<newline>while True: pass'')
         fresh_dir) =
     Inl (Exc OSError (ustr ''[Errno 21] Is a directory''))"
  by (simp add: exec_eval)

text \<open>
  C3, amended: when the file could be written, \<open>subprocess.run\<close> raises
  \<open>TimeoutExpired\<close> (the library has killed the child by then; \<open>execute_code\<close> does
  nothing about the child itself) and the removal of \<open>temp_code.py\<close> is not refused,
  the result is the fixed record: \<open>success\<close> false, the message
  "Command execution timed out" and the synthetic output
  "Execution took too long and was terminated"; nothing the child wrote is in it.
\<close>

theorem execute_code_timeout:
  assumes "write_fails w code_file (clean_generated_code code) = None"
    and "subprocess_run [ustr ''python3'', code_file] 60
             (write_file w code_file (clean_generated_code code)) = (Inl e, w1)"
    and "exc_cls e = TimeoutExpired"
    and "files w1 code_file = None \<or> remove_error w1 code_file = None"
  shows "fst (execute_code subprocess_run code w) =
           Inr \<lparr>success = False, message = ustr ''Command execution timed out'',
                output_text = ustr ''Execution took too long and was terminated''\<rparr>"
proof -
  obtain w2 where "handler_cleanup w1 = Inr w2" using assms(4) handler_cleanup_ok by blast
  with assms(1,2,3) show ?thesis
    by (simp add: execute_code_def open_write_def try_block_def)
qed

theorem execute_code_timeout_witness:
  "fst (execute_code (\<lambda>argv t w. (Inl (Exc TimeoutExpired (ustr ''timed out after 60 seconds'')), w))
         (ustr ''while True: pass'') fresh_dir) =
     Inr \<lparr>success = False, message = ustr ''Command execution timed out'',
          output_text = ustr ''Execution took too long and was terminated''\<rparr>"
  using execute_code_timeout
    [of fresh_dir "ustr ''while True: pass''"
      "\<lambda>argv t w. (Inl (Exc TimeoutExpired (ustr ''timed out after 60 seconds'')), w)"
      "Exc TimeoutExpired (ustr ''timed out after 60 seconds'')"
      "write_file fresh_dir code_file (clean_generated_code (ustr ''while True: pass''))"]
  by (simp add: fresh_dir_def write_file_def)

text \<open>
  C10. On the normal path the file is removed before the exit status is read, and the
  removal is not guarded: when the file could be written, the child has completed,
  with any exit status, and \<open>temp_code.py\<close> is gone, the result is a failure carrying
  the text of the \<open>FileNotFoundError\<close>.
\<close>

theorem execute_code_artifact_removed_by_child:
  assumes "write_fails w code_file (clean_generated_code code) = None"
    and "subprocess_run [ustr ''python3'', code_file] 60
             (write_file w code_file (clean_generated_code code)) = (Inr result, w1)"
    and "files w1 code_file = None"
  shows "fst (execute_code subprocess_run code w) =
           Inr \<lparr>success = False,
                message = ustr ''Exception during execution: '' @
                  ustr ''[Errno 2] No such file or directory: '' @ [39] @ code_file @ [39],
                output_text =
                  ustr ''[Errno 2] No such file or directory: '' @ [39] @ code_file @ [39]\<rparr>"
  using assms
  by (simp add: execute_code_def open_write_def try_block_def os_remove_def handler_cleanup_def
      os_path_exists_def)

theorem execute_code_artifact_removed_by_child_witness:
  "fst (execute_code
         (\<lambda>argv t w. (Inr \<lparr>returncode = 0, stdout = ustr ''bye\<newline>'', stderr = []\<rparr>,
                      w\<lparr>files := (files w)(code_file := None)\<rparr>))
         (ustr ''import os; os.remove(__file__); print(\"bye\")'') fresh_dir) =
     Inr \<lparr>success = False,
          message = ustr ''Exception during execution: '' @
            ustr ''[Errno 2] No such file or directory: '' @ [39] @ code_file @ [39],
          output_text =
            ustr ''[Errno 2] No such file or directory: '' @ [39] @ code_file @ [39]\<rparr>"
  using execute_code_artifact_removed_by_child
    [of fresh_dir "ustr ''import os; os.remove(__file__); print(\"bye\")''"
      "\<lambda>argv t w. (Inr \<lparr>returncode = 0, stdout = ustr ''bye\<newline>'', stderr = []\<rparr>,
                      w\<lparr>files := (files w)(code_file := None)\<rparr>)"]
  by (simp add: fresh_dir_def write_file_def)

section \<open>Claims about the generator, the gate and the pipeline\<close>

text \<open>
  C8. When the backend call raises, or its response has no
  \<open>completion_message.content\<close>, \<open>call_llm_for_code\<close> returns the marker
  "# Error generating code"; its result is a string in every case.
\<close>

theorem call_llm_for_code_failure:
  assumes "chat_completion
             [\<lparr>content = system_prompt, role = ustr ''system''\<rparr>,
              \<lparr>content = user_message user_query, role = ustr ''user''\<rparr>]
             LLAMA_MODEL False = Inl e
           \<or> chat_completion
             [\<lparr>content = system_prompt, role = ustr ''system''\<rparr>,
              \<lparr>content = user_message user_query, role = ustr ''user''\<rparr>]
             LLAMA_MODEL False = Inr Malformed"
  shows "call_llm_for_code chat_completion user_query = ustr ''# Error generating code''"
  using assms by (auto simp: call_llm_for_code_def request_completion_def error_marker_def)

theorem call_llm_for_code_failure_witness:
  "call_llm_for_code (\<lambda>messages model_id stream. Inl (Exc OtherException (ustr ''Connection refused'')))
     (ustr ''open Safari'') = ustr ''# Error generating code''"
  using call_llm_for_code_failure
    [of "\<lambda>messages model_id stream. Inl (Exc OtherException (ustr ''Connection refused''))"
      "ustr ''open Safari''" "Exc OtherException (ustr ''Connection refused'')"]
  by simp

text \<open>
  C5, as stated: text that does not parse is answered with \<open>False\<close>. Only
  \<open>SyntaxError\<close> is caught around \<open>ast.parse\<close>. On a lone surrogate \<open>ast.parse\<close>
  raises \<open>UnicodeEncodeError\<close>, and that exception leaves \<open>is_code_safe\<close>: no
  \<open>False\<close> is returned.
\<close>

theorem is_code_safe_raises_on_surrogate:
  "is_code_safe (\<lambda>pattern code. False)
     (\<lambda>code. if code = [55296]
             then Some (Exc UnicodeEncodeError (ustr ''surrogates not allowed'')) else None)
     [55296] = Inl (Exc UnicodeEncodeError (ustr ''surrogates not allowed'')) \<and>
   is_code_safe (\<lambda>pattern code. False)
     (\<lambda>code. if code = [55296]
             then Some (Exc UnicodeEncodeError (ustr ''surrogates not allowed'')) else None)
     [55296] \<noteq> Inr False"
  by (simp add: is_code_safe_def is_code_safe_with_def dangerous_patterns_def)

text \<open>
  C5, amended: where \<open>ast.parse\<close> raises \<open>SyntaxError\<close>, \<open>is_code_safe\<close> returns
  \<open>False\<close>, and so does its body with any other list of patterns; where
  \<open>ast.parse\<close> raises another exception, \<open>is_code_safe\<close> raises that exception.
\<close>

theorem is_code_safe_rejects_syntax_error:
  assumes "ast_parse code = Some e"
  shows "is_code_safe re_search ast_parse code
           = (if exc_cls e = SyntaxError then Inr False else Inl e) \<and>
         (exc_cls e = SyntaxError \<longrightarrow>
            is_code_safe_with re_search ast_parse patterns code = Inr False)"
  using assms by (simp add: is_code_safe_def is_code_safe_with_def dangerous_patterns_def)

theorem is_code_safe_rejects_syntax_error_witness:
  "is_code_safe (\<lambda>pattern code. False)
     (\<lambda>code. if code = ustr ''this is not valid code (''
             then Some (Exc SyntaxError (ustr ''invalid syntax'')) else None)
     (ustr ''this is not valid code ('') = Inr False \<and>
   is_code_safe_with (\<lambda>pattern code. False)
     (\<lambda>code. if code = ustr ''this is not valid code (''
             then Some (Exc SyntaxError (ustr ''invalid syntax'')) else None)
     [ustr ''eval'']
     (ustr ''this is not valid code ('') = Inr False"
  using is_code_safe_rejects_syntax_error
    [of "\<lambda>code. if code = ustr ''this is not valid code (''
             then Some (Exc SyntaxError (ustr ''invalid syntax'')) else None"
      "ustr ''this is not valid code (''" "Exc SyntaxError (ustr ''invalid syntax'')"
      "\<lambda>pattern code. False" "[ustr ''eval'']"]
  by simp



text \<open>
  C9. When the backend call raises or its response is malformed, the file can be
  written, and the interpreter, given
  a file that holds only the marker comment, exits with status 0 without output and
  leaves the file alone and removable, the answer carries the marker as generated code
  and a successful execution with empty output. It is the very answer given when the
  model itself replies with that comment.
\<close>

theorem process_command_generation_failed:
  assumes "d (ustr ''command'') = Some user_command"
    and "chat_completion
             [\<lparr>content = system_prompt, role = ustr ''system''\<rparr>,
              \<lparr>content = user_message user_command, role = ustr ''user''\<rparr>]
             LLAMA_MODEL False = Inl e
         \<or> chat_completion
             [\<lparr>content = system_prompt, role = ustr ''system''\<rparr>,
              \<lparr>content = user_message user_command, role = ustr ''user''\<rparr>]
             LLAMA_MODEL False = Inr Malformed"
    and "write_fails w code_file (ustr ''# Error generating code'') = None"
    and "subprocess_run [ustr ''python3'', code_file] 60
           (write_file w code_file (ustr ''# Error generating code''))
         = (Inr \<lparr>returncode = 0, stdout = [], stderr = []\<rparr>, w1)"
    and "files w1 code_file \<noteq> None"
    and "remove_error w1 code_file = None"
  shows "process_command chat_completion subprocess_run (Some d) w =
           (Ok_200 \<lparr>command = user_command,
                    generated_code = ustr ''# Error generating code'',
                    execution_result =
                      \<lparr>success = True, message = ustr ''Command executed successfully'',
                       output_text = []\<rparr>\<rparr>,
            w1\<lparr>files := (files w1)(code_file := None)\<rparr>) \<and>
         process_command
           (\<lambda>messages model_id stream. Inr (Completion (ustr ''# Error generating code'')))
           subprocess_run (Some d) w =
         process_command chat_completion subprocess_run (Some d) w"
proof -
  have em: "error_marker = ustr ''# Error generating code''" by (simp add: error_marker_def)
  have gen: "call_llm_for_code chat_completion user_command = error_marker"
    using assms(2) by (auto simp: call_llm_for_code_def request_completion_def)
  have gen': "call_llm_for_code
      (\<lambda>messages model_id stream. Inr (Completion (ustr ''# Error generating code'')))
      user_command = error_marker"
    by (simp add: call_llm_for_code_def request_completion_def error_marker_def)
  have wr: "write_fails w code_file (clean_generated_code error_marker) = None"
    using assms(3) by (simp add: clean_error_marker) (simp add: error_marker_def)
  have run: "subprocess_run [ustr ''python3'', code_file] 60
           (write_file w code_file (clean_generated_code error_marker))
         = (Inr \<lparr>returncode = 0, stdout = [], stderr = []\<rparr>, w1)"
    using assms(4) by (simp add: clean_error_marker) (simp add: error_marker_def)
  have ex: "execute_code subprocess_run error_marker w =
      (Inr \<lparr>success = True, message = ustr ''Command executed successfully'',
            output_text = []\<rparr>, w1\<lparr>files := (files w1)(code_file := None)\<rparr>)"
    using execute_code_completed [of w error_marker subprocess_run _ w1] wr run assms(5,6)
    by simp
  show ?thesis
    using assms(1) gen gen' ex em by (simp add: process_command_def)
qed

theorem process_command_generation_failed_witness:
  "fst (process_command
         (\<lambda>messages model_id stream. Inl (Exc OtherException (ustr ''Connection refused'')))
         (\<lambda>argv t w. (Inr \<lparr>returncode = 0, stdout = [], stderr = []\<rparr>, w))
         (Some [ustr ''command'' \<mapsto> ustr ''open Safari''])
         fresh_dir) =
     Ok_200 \<lparr>command = ustr ''open Safari'',
             generated_code = ustr ''# Error generating code'',
             execution_result =
               \<lparr>success = True, message = ustr ''Command executed successfully'',
                output_text = []\<rparr>\<rparr>"
  using process_command_generation_failed
    [of "[ustr ''command'' \<mapsto> ustr ''open Safari'']" "ustr ''open Safari''"
      "\<lambda>messages model_id stream. Inl (Exc OtherException (ustr ''Connection refused''))"
      "Exc OtherException (ustr ''Connection refused'')"
      fresh_dir
      "\<lambda>argv t w. (Inr \<lparr>returncode = 0, stdout = [], stderr = []\<rparr>, w)"
      "write_file fresh_dir code_file (ustr ''# Error generating code'')"]
  by (simp add: fresh_dir_def write_file_def)

end
